theory Spec2Isabelle
  imports Main
begin

section \<open>Python values\<close>

text \<open>
  The notebook \<^verbatim>\<open>textract-hand-written-a2i-forms.ipynb\<close> is read as a script: its code
  cells run top to bottom in one namespace and the first exception ends the run.
  Exceptions are values of \<open>error\<close>; a stage that can raise returns \<open>error + 'a\<close>, and a
  stage that calls the services returns the calls made, the store and the exception,
  if any, that ended it.
  \<open>TimeoutError\<close> is listed so that statements about it can be written; no stage of the
  notebook raises it. \<open>NotModelled\<close> is no exception of the notebook: it marks the one
  place, a join of frames with repeated row labels, where the model stops.
\<close>

datatype error = NameError | AttributeError | KeyError | ValueError | ResourceInUse | TimeoutError | NotModelled

text \<open>
  Scalars held in a cell of a data frame or in the reviewer's answer: \<open>None\<close>, the
  \<open>nan\<close> that pandas uses for a missing cell, and strings. Numbers are left out:
  \<^verbatim>\<open>read_csv\<close> gives a column of numerals a numeric type, and pandas turns its
  integers into floats when a row is appended or padded; floating point is outside the
  model, so its frames hold text columns. Strings are lists of 8-bit characters, read
  as code points below 256.
\<close>

datatype pyval = PNone | PNaN | PStr string

text \<open>\<^verbatim>\<open>str(n)\<close> for a non-negative integer: its decimal digits.\<close>

fun str_nat :: "nat \<Rightarrow> string" where
  "str_nat n =
     (if n < 10 then [''0123456789'' ! n]
      else str_nat (n div 10) @ [''0123456789'' ! (n mod 10)])"

declare str_nat.simps [simp del]

text \<open>\<^verbatim>\<open>str(v)\<close>.\<close>

fun pystr :: "pyval \<Rightarrow> string" where
  "pystr PNone = ''None''"
| "pystr PNaN = ''nan''"
| "pystr (PStr s) = s"

text \<open>
  \<^verbatim>\<open>str.isspace\<close> on one character, for code points below 256, and
  \<^verbatim>\<open>s.rstrip()\<close>, which removes the longest suffix of such characters.
\<close>

definition isspace :: "char \<Rightarrow> bool" where
  "isspace c = ((of_char c :: nat) \<in> {9, 10, 11, 12, 13, 28, 29, 30, 31, 32, 133, 160})"

definition rstrip :: "string \<Rightarrow> string" where
  "rstrip s = rev (dropWhile isspace (rev s))"

section \<open>The parsed analysis response\<close>

text \<open>
  \<^verbatim>\<open>doc = Document(response)\<close> is a list of pages. The notebook reads, of a page, its
  tables (\<^verbatim>\<open>page.tables\<close>, each a list of rows, each row a list of cell texts) and its
  form fields (\<^verbatim>\<open>page.form.fields\<close>, each with a key text and a value text; \<^verbatim>\<open>str\<close> of
  either is that text). Lines and words are only printed.
\<close>

record field =
  key :: string
  val :: string

type_synonym row_cells = "string list"
type_synonym table = "row_cells list"

record page =
  tables :: "table list"
  form_fields :: "field list"

type_synonym document = "page list"

text \<open>
  The traversal cell
  \<^verbatim>\<open>for page in doc.pages: ... for table in page.tables: ...\<close>
  only prints, but its loop variables stay bound afterwards and the two csv cells read
  them: \<open>page\<close> is the last page, \<open>table\<close> the table bound last. A variable that no
  iteration bound is \<open>None\<close> here, and reading it is a \<open>NameError\<close>.
\<close>

definition traverse :: "document \<Rightarrow> page option \<times> table option" where
  "traverse doc =
     foldl (\<lambda>(pg, tb) p. (Some p, foldl (\<lambda>_ t. Some t) tb (tables p))) (None, None) doc"

text \<open>
  The form cell: one csv row per field of \<open>page\<close>, holding the single string
  \<^verbatim>\<open>str(field.key)+" "+str(field.value)\<close>.
\<close>

fun formwriter :: "page option \<Rightarrow> error + string list list" where
  "formwriter None = Inl NameError"
| "formwriter (Some p) = Inr (map (\<lambda>f. [key f @ '' '' @ val f]) (form_fields p))"

text \<open>
  The table cell. The inner loop appends \<^verbatim>\<open>cell.text.rstrip()\<close> to \<open>csvrow\<close> for every
  cell whose text is truthy (not the empty string); the outer loop writes one csv row
  per row of \<open>table\<close>.
\<close>

fun csvrow_loop :: "string list \<Rightarrow> row_cells \<Rightarrow> string list" where
  "csvrow_loop csvrow [] = csvrow"
| "csvrow_loop csvrow (text # cells) =
     csvrow_loop (if text \<noteq> [] then csvrow @ [rstrip text] else csvrow) cells"

fun tabwriter :: "table option \<Rightarrow> error + string list list" where
  "tabwriter None = Inl NameError"
| "tabwriter (Some t) = Inr (map (csvrow_loop []) t)"

definition header_projection :: "document \<Rightarrow> error + string list list" where
  "header_projection doc = formwriter (fst (traverse doc))"

definition line_item_projection :: "document \<Rightarrow> error + string list list" where
  "line_item_projection doc = tabwriter (snd (traverse doc))"

text \<open>All tables, and all field pairs, of a response in traversal order.\<close>

definition all_tables :: "document \<Rightarrow> table list" where
  "all_tables doc = concat (map tables doc)"

definition all_fields :: "document \<Rightarrow> field list" where
  "all_fields doc = concat (map form_fields doc)"

section \<open>Data frames\<close>

text \<open>
  A pandas data frame: its column labels and its rows in order, each row with its index
  label. The default index labels the rows \<open>0, 1, ..., n - 1\<close>; \<^verbatim>\<open>read_csv\<close> labels
  them otherwise when the data rows have one field more than the header row, taking
  the first field of each row as its label. Labels are integers here; other labels are
  not modelled. A row maps a column label to the cell's value; a label of \<open>columns\<close>
  that the row does not map is a missing cell and reads as \<open>nan\<close>. \<^verbatim>\<open>df_form\<close> and
  \<^verbatim>\<open>df_tab\<close> are what \<^verbatim>\<open>pd.read_csv\<close> returned (and, for \<^verbatim>\<open>df_form\<close>, the renaming
  of its first column to \<^verbatim>\<open>FormHeader\<close>); the model takes them as given.
\<close>

type_synonym row = "string \<rightharpoonup> pyval"

record dataframe =
  columns :: "string list"
  rows :: "(int \<times> row) list"

definition labels :: "dataframe \<Rightarrow> int list" where
  "labels df = map fst (rows df)"

definition cell :: "row \<Rightarrow> string \<Rightarrow> pyval" where
  "cell r c = (case r c of None \<Rightarrow> PNaN | Some v \<Rightarrow> v)"

text \<open>
  \<^verbatim>\<open>df.at[j, c] = v\<close> writes by label: every row labelled \<open>j\<close> gets the cell, and when
  no row has that label a new last row labelled \<open>j\<close> is appended, its other cells
  missing. A label \<open>c\<close> that is not a column yet becomes a new last column, missing in
  the other rows. \<open>set_rows\<close> is the change of the rows, for any change \<open>f\<close> of a row.
\<close>

definition set_rows :: "int \<Rightarrow> (row \<Rightarrow> row) \<Rightarrow> (int \<times> row) list \<Rightarrow> (int \<times> row) list" where
  "set_rows l f rs =
     (if l \<in> fst ` set rs
      then map (\<lambda>(l', r). if l' = l then (l', f r) else (l', r)) rs
      else rs @ [(l, f Map.empty)])"

definition at_set :: "dataframe \<Rightarrow> nat \<Rightarrow> string \<Rightarrow> pyval \<Rightarrow> dataframe" where
  "at_set df j c v =
     \<lparr>columns = (if c \<in> set (columns df) then columns df else columns df @ [c]),
      rows = set_rows (int j) (\<lambda>r. r(c \<mapsto> v)) (rows df)\<rparr>"

text \<open>\<^verbatim>\<open>df.where(df.notnull(), None)\<close>: every null cell (\<open>None\<close> or \<open>nan\<close>) becomes \<open>None\<close>.\<close>

definition isnull :: "pyval \<Rightarrow> bool" where
  "isnull v = (v = PNone \<or> v = PNaN)"

definition where_notnull :: "dataframe \<Rightarrow> dataframe" where
  "where_notnull df =
     \<lparr>columns = columns df,
      rows = map (\<lambda>(l, r). (l, \<lambda>c. if c \<in> set (columns df)
                                   then Some (if isnull (cell r c) then PNone else cell r c)
                                   else None)) (rows df)\<rparr>"

section \<open>Merging the reviewer's answer\<close>

text \<open>
  \<^verbatim>\<open>answerContent\<close> is a dictionary from the names of the form's inputs to values;
  \<^verbatim>\<open>x.get(k)\<close> is the value under \<open>k\<close>, or \<open>None\<close> when \<open>k\<close> is not a key.
\<close>

type_synonym answer = "string \<rightharpoonup> pyval"

definition pyget :: "answer \<Rightarrow> string \<Rightarrow> pyval" where
  "pyget x k = (case x k of None \<Rightarrow> PNone | Some v \<Rightarrow> v)"

text \<open>The value a merge loop stores: \<^verbatim>\<open>str(x.get(name + str(j+1)))\<close>.\<close>

definition corrected :: "answer \<Rightarrow> string \<Rightarrow> nat \<Rightarrow> pyval" where
  "corrected x name j = PStr (pystr (pyget x (name @ str_nat (j + 1))))"

text \<open>
  The body of the loop over \<^verbatim>\<open>df_form\<close>, and the loop
  \<^verbatim>\<open>for j in range(0, len(df_form))\<close>, whose range is fixed when the loop starts.
\<close>

definition form_step :: "answer \<Rightarrow> dataframe \<Rightarrow> nat \<Rightarrow> dataframe" where
  "form_step x df j =
     at_set (at_set df j ''TrueHeader'' (corrected x ''TrueHdr'' j))
       j ''Comments'' (corrected x ''Comments'' j)"

definition merge_form :: "answer \<Rightarrow> dataframe \<Rightarrow> dataframe" where
  "merge_form x df = foldl (form_step x) df [0..<length (rows df)]"

text \<open>The same for \<^verbatim>\<open>df_tab\<close>, with its six assignments in the order of the source.\<close>

definition tab_step :: "answer \<Rightarrow> dataframe \<Rightarrow> nat \<Rightarrow> dataframe" where
  "tab_step x df j =
     at_set (at_set (at_set (at_set (at_set (at_set df
       j ''TrueStartDate'' (corrected x ''TrueStartDate'' j))
       j ''TrueEndDate'' (corrected x ''TrueEndDate'' j))
       j ''TrueEmpName'' (corrected x ''TrueEmpName'' j))
       j ''TruePosHeld'' (corrected x ''TruePosHeld'' j))
       j ''TrueResLeave'' (corrected x ''TrueResLeave'' j))
       j ''ChangeComments'' (corrected x ''Change Reason'' j)"

definition merge_tab :: "answer \<Rightarrow> dataframe \<Rightarrow> dataframe" where
  "merge_tab x df = foldl (tab_step x) df [0..<length (rows df)]"

text \<open>
  Each merge cell starts with
  \<^verbatim>\<open>for i in json_output['humanAnswers']: x = i['answerContent']\<close>,
  so \<open>x\<close> is the content of the last answer. With no answer in the list \<open>x\<close> keeps
  what the flow-activation loop \<^verbatim>\<open>for x in range(60)\<close> left in it, an integer, and
  the first \<^verbatim>\<open>x.get\<close> is an \<open>AttributeError\<close>; a frame without rows never reaches it.
  The cell ends with \<^verbatim>\<open>df.where(df.notnull(), None)\<close>.
\<close>

definition select_answer :: "answer list \<Rightarrow> answer option" where
  "select_answer humanAnswers = foldl (\<lambda>_ a. Some a) None humanAnswers"

definition merge_cell ::
  "(answer \<Rightarrow> dataframe \<Rightarrow> dataframe) \<Rightarrow> answer list \<Rightarrow> dataframe \<Rightarrow> error + dataframe" where
  "merge_cell loop humanAnswers df =
     (case select_answer humanAnswers of
        Some x \<Rightarrow> Inr (where_notnull (loop x df))
      | None \<Rightarrow> if rows df = [] then Inr (where_notnull df) else Inl AttributeError)"

text \<open>The correctable columns of the two frames, each with the name its answer keys start with.\<close>

definition form_fields_corrected :: "(string \<times> string) list" where
  "form_fields_corrected = [(''TrueHeader'', ''TrueHdr''), (''Comments'', ''Comments'')]"

definition tab_fields_corrected :: "(string \<times> string) list" where
  "tab_fields_corrected =
     [(''TrueStartDate'', ''TrueStartDate''), (''TrueEndDate'', ''TrueEndDate''),
      (''TrueEmpName'', ''TrueEmpName''), (''TruePosHeld'', ''TruePosHeld''),
      (''TrueResLeave'', ''TrueResLeave''), (''ChangeComments'', ''Change Reason'')]"

text \<open>
  What iteration \<open>j\<close> of a merge loop does to a row labelled \<open>j\<close>, written as one
  update of the row; the loops are compared with it below.
\<close>

definition form_upd :: "answer \<Rightarrow> nat \<Rightarrow> row \<Rightarrow> row" where
  "form_upd x j r =
     r(''TrueHeader'' \<mapsto> corrected x ''TrueHdr'' j,
       ''Comments'' \<mapsto> corrected x ''Comments'' j)"

definition tab_upd :: "answer \<Rightarrow> nat \<Rightarrow> row \<Rightarrow> row" where
  "tab_upd x j r =
     r(''TrueStartDate'' \<mapsto> corrected x ''TrueStartDate'' j,
       ''TrueEndDate'' \<mapsto> corrected x ''TrueEndDate'' j,
       ''TrueEmpName'' \<mapsto> corrected x ''TrueEmpName'' j,
       ''TruePosHeld'' \<mapsto> corrected x ''TruePosHeld'' j,
       ''TrueResLeave'' \<mapsto> corrected x ''TrueResLeave'' j,
       ''ChangeComments'' \<mapsto> corrected x ''Change Reason'' j)"

text \<open>
  What a merge loop of \<open>k\<close> iterations leaves of the rows \<open>rs\<close>, written without the
  loop; \<open>u j\<close> is the update of iteration \<open>j\<close>. A row whose label is one of
  \<open>0, ..., k - 1\<close> has been updated by the iteration of that number, the other rows are
  as they were, and for every \<open>j < k\<close> that labels no row of \<open>rs\<close> a row labelled \<open>j\<close>
  has been appended, in ascending order. The loops are shown below to compute this.
\<close>

definition merged_rows :: "(nat \<Rightarrow> row \<Rightarrow> row) \<Rightarrow> nat \<Rightarrow> (int \<times> row) list \<Rightarrow> (int \<times> row) list" where
  "merged_rows u k rs =
     map (\<lambda>(l, r). if 0 \<le> l \<and> l < int k then (l, u (nat l) r) else (l, r)) rs
     @ map (\<lambda>j. (int j, u j Map.empty)) (filter (\<lambda>j. int j \<notin> fst ` set rs) [0..<k])"

section \<open>Joining the frames and writing the items\<close>

text \<open>
  \<^verbatim>\<open>df_form.join(df_tab, how='outer')\<close> joins on the index labels: the result has
  the columns of both frames and one row for every label of either, holding the cells
  of the rows with that label; where one frame has no such row its cells are missing.
  With labels that are pairwise distinct in each frame, the labels of the result are
  those of the frame that has rows when the other has none, the common list when both
  frames have the same labels in the same order, and otherwise the labels of both in
  ascending order. pandas refuses frames that share a column label. What it does with
  repeated labels is not modelled.
\<close>

definition row_of :: "dataframe \<Rightarrow> int \<Rightarrow> row" where
  "row_of df l = (case map_of (rows df) l of None \<Rightarrow> Map.empty | Some r \<Rightarrow> r)"

definition join_labels :: "int list \<Rightarrow> int list \<Rightarrow> int list" where
  "join_labels la lb =
     (if lb = [] then la else if la = [] then lb else if la = lb then la
      else sort (remdups (la @ lb)))"

definition joined_frame :: "dataframe \<Rightarrow> dataframe \<Rightarrow> dataframe" where
  "joined_frame a b =
     \<lparr>columns = columns a @ columns b,
      rows = map (\<lambda>l. (l, row_of a l ++ row_of b l)) (join_labels (labels a) (labels b))\<rparr>"

definition join_outer :: "dataframe \<Rightarrow> dataframe \<Rightarrow> error + dataframe" where
  "join_outer a b =
     (if set (columns a) \<inter> set (columns b) \<noteq> {} then Inl ValueError
      else if \<not> distinct (labels a) \<or> \<not> distinct (labels b) then Inl NotModelled
      else Inr (joined_frame a b))"

text \<open>
  Attribute values of the key-value store: a number, a string or null. An item lists
  its attributes in the order of the \<^verbatim>\<open>Item\<close> dictionary. A table maps the value of its
  key attribute \<^verbatim>\<open>line_nr\<close> to the item stored under it; the store maps table names to
  tables.
\<close>

datatype attr = N int | S string | NULL

type_synonym item = "(string \<times> attr) list"
type_synonym ddb_table = "int \<rightharpoonup> item"
type_synonym datastore = "string \<rightharpoonup> ddb_table"

text \<open>The calls to the external services that a run makes, in order.\<close>

datatype event =
    DescribeFlowDefinition
  | Sleep nat
  | StartHumanLoop "(string \<times> pyval) list" "(string \<times> pyval list) list"
  | DescribeHumanLoop
  | GetObject
  | CreateTable string string string
  | PutItem string item

text \<open>
  The non-key attributes of the item of \<^verbatim>\<open>table.put_item\<close>, each with the column of
  \<^verbatim>\<open>df_doc\<close> it is read from, and the item for the row with index label \<open>idx\<close>:
  \<^verbatim>\<open>'line_nr': idx\<close>, then \<^verbatim>\<open>str(row[column])\<close> for each of them. \<^verbatim>\<open>row[column]\<close> is a
  \<open>KeyError\<close> when the frame has no such column.
\<close>

definition item_columns :: "(string \<times> string) list" where
  "item_columns =
     [(''orig_hdr'', ''FormHeader''), (''true_hdr'', ''TrueHeader''),
      (''comments'', ''Comments''), (''start_date'', ''Start Date''),
      (''end_date'', ''End Date''), (''emp_name'', ''Employer Name''),
      (''position_held'', ''Position Held''), (''reason_for_leaving'', ''Reason for leaving''),
      (''true_start_date'', ''TrueStartDate''), (''true_end_date'', ''TrueEndDate''),
      (''true_emp_name'', ''TrueEmpName''), (''true_position_held'', ''TruePosHeld''),
      (''true_reason_for_leaving'', ''TrueResLeave''), (''change_comments'', ''ChangeComments'')]"

definition item_of :: "int \<Rightarrow> row \<Rightarrow> item" where
  "item_of idx r =
     (''line_nr'', N idx) # map (\<lambda>(a, c). (a, S (pystr (cell r c)))) item_columns"

definition make_item :: "string list \<Rightarrow> int \<Rightarrow> row \<Rightarrow> error + item" where
  "make_item cols idx r =
     (if list_all (\<lambda>(a, c). c \<in> set cols) item_columns then Inr (item_of idx r)
      else Inl KeyError)"

text \<open>
  \<^verbatim>\<open>for idx, row in df_doc.iterrows(): table.put_item(Item={...})\<close>: the rows in
  order, each with its index label. An item replaces the one stored under the same
  key. The loop stops at the first exception and what was written before stays.
\<close>

fun put_items ::
  "string \<Rightarrow> string list \<Rightarrow> (int \<times> row) list \<Rightarrow> ddb_table
     \<Rightarrow> event list \<times> ddb_table \<times> error option" where
  "put_items tn cols [] t = ([], t, None)"
| "put_items tn cols ((idx, r) # rest) t =
     (case make_item cols idx r of
        Inl e \<Rightarrow> ([], t, Some e)
      | Inr it \<Rightarrow>
          (case put_items tn cols rest (t(idx \<mapsto> it)) of
             (ev, t', e) \<Rightarrow> (PutItem tn it # ev, t', e)))"

text \<open>
  The table is named \<^verbatim>\<open>"emp_hist-"+str(uuid.uuid4())\<close>; the identifier drawn is an
  input of the model. \<^verbatim>\<open>create_table\<close> declares the hash key \<^verbatim>\<open>line_nr\<close> of type
  \<^verbatim>\<open>N\<close> and fails when the store already has a table of that name.
\<close>

definition tablename :: "string \<Rightarrow> string" where
  "tablename u = ''emp_hist-'' @ u"

definition persist ::
  "string \<Rightarrow> dataframe \<Rightarrow> datastore \<Rightarrow> event list \<times> datastore \<times> error option" where
  "persist u df st =
     (if st (tablename u) \<noteq> None
      then ([CreateTable (tablename u) ''line_nr'' ''N''], st, Some ResourceInUse)
      else (case put_items (tablename u) (columns df) (rows df) Map.empty of
              (ev, t, e) \<Rightarrow>
                (CreateTable (tablename u) ''line_nr'' ''N'' # ev, st(tablename u \<mapsto> t), e)))"

section \<open>The review run\<close>

text \<open>
  The flow-activation cell:
  \<^verbatim>\<open>for x in range(60): r = describe_flow_definition(...); if r[status] == 'Active': break; time.sleep(2)\<close>.
  \<open>status x\<close> is the status the service reports at attempt \<open>x\<close>.
\<close>

fun flow_wait :: "(nat \<Rightarrow> string) \<Rightarrow> nat list \<Rightarrow> event list" where
  "flow_wait status [] = []"
| "flow_wait status (x # xs) =
     DescribeFlowDefinition #
       (if status x = ''Active'' then [] else Sleep 2 # flow_wait status xs)"

text \<open>
  The payload cells read five columns of \<^verbatim>\<open>df_tab\<close> and \<^verbatim>\<open>FormHeader\<close> of
  \<^verbatim>\<open>df_form\<close> by label (a \<open>KeyError\<close> when one is absent), turn each into the list of its
  cells, and list one entry per row position \<open>x\<close>.
\<close>

definition review_columns :: "string list" where
  "review_columns =
     [''Start Date'', ''End Date'', ''Employer Name'', ''Position Held'', ''Reason for leaving'']"

definition build_payload ::
  "dataframe \<Rightarrow> dataframe
     \<Rightarrow> error + ((string \<times> pyval list) list \<times> (string \<times> pyval) list)" where
  "build_payload df_form df_tab =
     (if \<not> list_all (\<lambda>c. c \<in> set (columns df_tab)) review_columns then Inl KeyError
      else if ''FormHeader'' \<notin> set (columns df_form) then Inl KeyError
      else Inr (map (\<lambda>(x, r). (str_nat x, map (cell r) review_columns))
                  (enumerate 0 (map snd (rows df_tab))),
                map (\<lambda>(x, r). (str_nat x, cell r ''FormHeader''))
                  (enumerate 0 (map snd (rows df_form)))))"

text \<open>
  What the services answer during one run: the flow definition's status at each
  attempt, the human loop's status at each of the two \<^verbatim>\<open>describe_human_loop\<close> calls,
  the \<^verbatim>\<open>answerContent\<close> of each entry of \<^verbatim>\<open>humanAnswers\<close> in the output object, and
  the identifier drawn for the table name.
\<close>

record services =
  flow_status :: "nat \<Rightarrow> string"
  loop_status :: "nat \<Rightarrow> string"
  human_answers :: "answer list"
  table_uuid :: string

text \<open>
  The cells from the flow-activation wait to the end, on the frames loaded before.
  The result is the calls made, the store and the exception that ended the run, if any.
  Only the second status cell decides: it resets \<^verbatim>\<open>completed_human_loops\<close> and appends
  the response when its status is \<^verbatim>\<open>Completed\<close>. The output cell loops over that list,
  so with a status other than \<^verbatim>\<open>Completed\<close> it binds nothing, and the merge cell's
  \<^verbatim>\<open>json_output['humanAnswers']\<close> is a \<open>NameError\<close>. With \<^verbatim>\<open>Completed\<close> it reads the
  output object, whose answers are taken as given. Calls whose result is only printed
  (\<^verbatim>\<open>describe_workteam\<close>) are left out.
\<close>

definition review_run ::
  "services \<Rightarrow> dataframe \<Rightarrow> dataframe \<Rightarrow> datastore
     \<Rightarrow> event list \<times> datastore \<times> error option" where
  "review_run env df_form df_tab st =
     (let ev1 = flow_wait (flow_status env) [0..<60] in
      case build_payload df_form df_tab of
        Inl e \<Rightarrow> (ev1, st, Some e)
      | Inr (item_list, hdr_list) \<Rightarrow>
          (let ev2 = ev1 @ [StartHumanLoop hdr_list item_list,
                            DescribeHumanLoop, DescribeHumanLoop] in
           if loop_status env 1 \<noteq> ''Completed'' then (ev2, st, Some NameError)
           else
             (case merge_cell merge_form (human_answers env) df_form of
                Inl e \<Rightarrow> (ev2 @ [GetObject], st, Some e)
              | Inr f \<Rightarrow>
                  (case merge_cell merge_tab (human_answers env) df_tab of
                     Inl e \<Rightarrow> (ev2 @ [GetObject], st, Some e)
                   | Inr t \<Rightarrow>
                       (case join_outer f t of
                          Inl e \<Rightarrow> (ev2 @ [GetObject], st, Some e)
                        | Inr d \<Rightarrow>
                            (case persist (table_uuid env) (where_notnull d) st of
                               (ev3, st', e) \<Rightarrow> (ev2 @ [GetObject] @ ev3, st', e)))))))"

section \<open>Concrete inputs\<close>

text \<open>
  A header frame with one row and a line-item frame with the five reviewed columns
  and two rows, the second with missing cells, both under the default index.
\<close>

definition form_frame :: dataframe where
  "form_frame =
     \<lparr>columns = [''FormHeader''], rows = [(0, [''FormHeader'' \<mapsto> PStr ''Name John''])]\<rparr>"

definition tab_frame :: dataframe where
  "tab_frame =
     \<lparr>columns = [''Start Date'', ''End Date'', ''Employer Name'', ''Position Held'',
                 ''Reason for leaving''],
      rows = [(0, [''Start Date'' \<mapsto> PStr ''Jan 2018'', ''End Date'' \<mapsto> PStr ''Dec 2018'',
                   ''Employer Name'' \<mapsto> PStr ''Acme'', ''Position Held'' \<mapsto> PStr ''Clerk'',
                   ''Reason for leaving'' \<mapsto> PStr ''Moved'']),
              (1, [''Start Date'' \<mapsto> PStr ''Jan 2019'', ''End Date'' \<mapsto> PStr ''Manager''])]\<rparr>"



text \<open>
  The answer \<open>{"TrueEmpName1": "Acme Corp", "TrueEmpName2": "Global Inc"}\<close>.
\<close>

definition scenario_answer :: answer where
  "scenario_answer = [''TrueEmpName1'' \<mapsto> PStr ''Acme Corp'', ''TrueEmpName2'' \<mapsto> PStr ''Global Inc'']"



text \<open>
  The joined frame \<^verbatim>\<open>df_doc\<close> of a completed run on the two frames above with this
  answer.
\<close>

definition doc_frame :: dataframe where
  "doc_frame =
     where_notnull (joined_frame (where_notnull (merge_form scenario_answer form_frame))
                                 (where_notnull (merge_tab scenario_answer tab_frame)))"

text \<open>
  A service whose flow definition never becomes active, one whose human loop is still
  in progress at both status checks, and one whose flow definition is active at once
  and whose human loop is completed, with the answer above as the only entry of
  \<open>humanAnswers\<close>.
\<close>

definition never_active :: services where
  "never_active =
     \<lparr>flow_status = (\<lambda>x. ''Initializing''), loop_status = (\<lambda>k. ''InProgress''),
      human_answers = [], table_uuid = ''u''\<rparr>"

definition never_completed :: services where
  "never_completed =
     \<lparr>flow_status = (\<lambda>x. ''Active''), loop_status = (\<lambda>k. ''InProgress''),
      human_answers = [], table_uuid = ''u''\<rparr>"


section \<open>Properties of the projection\<close>

lemma inner_loop_last: "foldl (\<lambda>_ t. Some t) tb ts = (if ts = [] then tb else Some (last ts))"
  by (induction ts arbitrary: tb) auto

lemma traverse_snoc:
  "traverse (doc @ [p]) =
     (Some p, if tables p = [] then snd (traverse doc) else Some (last (tables p)))"
  by (simp add: traverse_def inner_loop_last split: prod.splits)

lemma traverse_page: "fst (traverse doc) = (if doc = [] then None else Some (last doc))"
proof (cases doc rule: rev_cases)
  case Nil
  then show ?thesis by (simp add: traverse_def)
next
  case (snoc ps p)
  then show ?thesis by (simp add: traverse_snoc)
qed

lemma traverse_table:
  "snd (traverse doc) = (if all_tables doc = [] then None else Some (last (all_tables doc)))"
proof (induction doc rule: rev_induct)
  case Nil
  show ?case by (simp add: traverse_def all_tables_def)
next
  case (snoc p doc)
  then show ?case by (simp add: traverse_snoc all_tables_def)
qed

lemma csvrow_loop_eq:
  "csvrow_loop csvrow cells = csvrow @ map rstrip (filter (\<lambda>text. text \<noteq> []) cells)"
  by (induction cells arbitrary: csvrow) auto

text \<open>
  Claim C1. When the response holds at least one table, the line-item projection works
  on one table, the last one met by the traversal, and writes exactly one row per row of
  that table; a row keeps, in order, the cells whose text is not empty, each with its
  trailing whitespace removed.
\<close>

theorem line_item_projection_last_table:
  assumes "all_tables doc \<noteq> []"
  shows "\<exists>out. line_item_projection doc = Inr out
           \<and> length out = length (last (all_tables doc))
           \<and> out = map (\<lambda>cells. map rstrip (filter (\<lambda>text. text \<noteq> []) cells))
                      (last (all_tables doc))"
  using assms by (simp add: line_item_projection_def traverse_table csvrow_loop_eq)

theorem line_item_projection_last_table_witness:
  "all_tables [\<lparr>tables = [[[''x'']], [[''Start '', ''End ''], [''2019  '', '''']]], form_fields = []\<rparr>,
               \<lparr>tables = [], form_fields = []\<rparr>] \<noteq> []
   \<and> line_item_projection
        [\<lparr>tables = [[[''x'']], [[''Start '', ''End ''], [''2019  '', '''']]], form_fields = []\<rparr>,
         \<lparr>tables = [], form_fields = []\<rparr>]
       = Inr [[''Start'', ''End''], [''2019'']]"
  using line_item_projection_last_table
    [of "[\<lparr>tables = [[[''x'']], [[''Start '', ''End ''], [''2019  '', '''']]], form_fields = []\<rparr>,
          \<lparr>tables = [], form_fields = []\<rparr>]"]
  by (simp add: all_tables_def rstrip_def isspace_def)

text \<open>
  Claim C2. The notebook analyses one image with the synchronous call, whose response
  has one page. For every such response that holds at least one field pair, the header
  projection writes exactly one row per field pair of the response, in detection order,
  holding the key text, one space and the value text, nothing trimmed; the pair
  \<open>(Name, John)\<close> gives \<open>Name John\<close>.
\<close>

theorem header_projection_one_page:
  assumes "length doc = 1" and "all_fields doc \<noteq> []"
  shows "\<exists>out. header_projection doc = Inr out
           \<and> length out = length (all_fields doc)
           \<and> out = map (\<lambda>f. [key f @ '' '' @ val f]) (all_fields doc)"
proof -
  from assms(1) obtain p where "doc = [p]"
    by (cases doc) simp_all
  then show ?thesis
    by (simp add: header_projection_def traverse_page all_fields_def)
qed

theorem header_projection_one_page_witness:
  "length [\<lparr>tables = [], form_fields = [\<lparr>key = ''Name'', val = ''John''\<rparr>, \<lparr>key = ''Date '', val = ''1 May''\<rparr>]\<rparr>] = 1
   \<and> all_fields
        [\<lparr>tables = [], form_fields = [\<lparr>key = ''Name'', val = ''John''\<rparr>, \<lparr>key = ''Date '', val = ''1 May''\<rparr>]\<rparr>]
       \<noteq> []
   \<and> header_projection
        [\<lparr>tables = [], form_fields = [\<lparr>key = ''Name'', val = ''John''\<rparr>, \<lparr>key = ''Date '', val = ''1 May''\<rparr>]\<rparr>]
       = Inr [[''Name John''], [''Date  1 May'']]"
  using header_projection_one_page
    [of "[\<lparr>tables = [], form_fields = [\<lparr>key = ''Name'', val = ''John''\<rparr>, \<lparr>key = ''Date '', val = ''1 May''\<rparr>]\<rparr>]"]
  by (simp add: all_fields_def)

section \<open>Properties of the merge\<close>

lemma set_rows_absent:
  "l \<notin> fst ` set rs \<Longrightarrow> map (\<lambda>(l', r). if l' = l then (l', f r) else (l', r)) rs = rs"
  by (induction rs) auto

lemma set_rows_comp: "set_rows l g (set_rows l f rs) = set_rows l (g \<circ> f) rs"
proof (cases "l \<in> fst ` set rs")
  case True
  then have "l \<in> fst ` set (map (\<lambda>(l', r). if l' = l then (l', f r) else (l', r)) rs)"
    by (force simp: image_iff)
  with True show ?thesis
    by (auto simp: set_rows_def)
next
  case False
  then show ?thesis
    by (simp add: set_rows_def set_rows_absent)
qed

lemma rows_at_set: "rows (at_set df j c v) = set_rows (int j) (\<lambda>r. r(c \<mapsto> v)) (rows df)"
  by (simp add: at_set_def)

lemma columns_at_set: "set (columns (at_set df j c v)) = insert c (set (columns df))"
  by (auto simp: at_set_def)

lemma rows_tab_step: "rows (tab_step x df j) = set_rows (int j) (tab_upd x j) (rows df)"
proof -
  have "(\<lambda>r. r(''ChangeComments'' \<mapsto> corrected x ''Change Reason'' j))
        \<circ> ((\<lambda>r. r(''TrueResLeave'' \<mapsto> corrected x ''TrueResLeave'' j))
        \<circ> ((\<lambda>r. r(''TruePosHeld'' \<mapsto> corrected x ''TruePosHeld'' j))
        \<circ> ((\<lambda>r. r(''TrueEmpName'' \<mapsto> corrected x ''TrueEmpName'' j))
        \<circ> ((\<lambda>r. r(''TrueEndDate'' \<mapsto> corrected x ''TrueEndDate'' j))
        \<circ> (\<lambda>r. r(''TrueStartDate'' \<mapsto> corrected x ''TrueStartDate'' j)))))) = tab_upd x j"
    by (rule ext) (simp add: tab_upd_def)
  then show ?thesis
    by (simp only: tab_step_def rows_at_set set_rows_comp)
qed

lemma rows_form_step: "rows (form_step x df j) = set_rows (int j) (form_upd x j) (rows df)"
proof -
  have "(\<lambda>r. r(''Comments'' \<mapsto> corrected x ''Comments'' j))
        \<circ> (\<lambda>r. r(''TrueHeader'' \<mapsto> corrected x ''TrueHdr'' j)) = form_upd x j"
    by (rule ext) (simp add: form_upd_def)
  then show ?thesis
    by (simp only: form_step_def rows_at_set set_rows_comp)
qed

lemma columns_tab_step:
  "set (columns (tab_step x df j)) = set (columns df) \<union> fst ` set tab_fields_corrected"
  by (auto simp: tab_step_def columns_at_set tab_fields_corrected_def)

lemma columns_form_step:
  "set (columns (form_step x df j)) = set (columns df) \<union> fst ` set form_fields_corrected"
  by (auto simp: form_step_def columns_at_set form_fields_corrected_def)

lemma labels_merged_rows:
  "fst ` set (merged_rows u k rs) = fst ` set rs \<union> int ` {0..<k}"
proof -
  have "fst ` set (map (\<lambda>(l, r). if 0 \<le> l \<and> l < int k then (l, u (nat l) r) else (l, r)) rs)
          = fst ` set rs"
    by (force simp: image_iff split: if_splits)
  moreover have "fst ` set (map (\<lambda>j. (int j, u j Map.empty))
                    (filter (\<lambda>j. int j \<notin> fst ` set rs) [0..<k]))
          = int ` {j. j < k \<and> int j \<notin> fst ` set rs}"
    by (force simp: image_iff)
  ultimately show ?thesis
    unfolding merged_rows_def set_append image_Un by auto
qed

lemma merged_rows_Suc: "set_rows (int k) (u k) (merged_rows u k rs) = merged_rows u (Suc k) rs"
proof -
  let ?h = "\<lambda>k (l, r). if 0 \<le> l \<and> l < int k then (l, u (nat l) r) else (l, r)"
  let ?g = "\<lambda>(l', r). if l' = int k then (l', u k r) else (l', r)"
  let ?new = "\<lambda>k. map (\<lambda>j. (int j, u j Map.empty)) (filter (\<lambda>j. int j \<notin> fst ` set rs) [0..<k])"
  show ?thesis
  proof (cases "int k \<in> fst ` set rs")
    case True
    then have "int k \<in> fst ` set (merged_rows u k rs)"
      by (simp add: labels_merged_rows)
    then have "set_rows (int k) (u k) (merged_rows u k rs) = map ?g (merged_rows u k rs)"
      by (simp add: set_rows_def)
    also have "\<dots> = map ?g (map (?h k) rs) @ map ?g (?new k)"
      by (simp add: merged_rows_def)
    also have "map ?g (map (?h k) rs) = map (?h (Suc k)) rs"
      by (induction rs) auto
    also have "map ?g (?new k) = ?new k"
      by (rule map_idI) auto
    also have "?new k = ?new (Suc k)"
      using True by simp
    finally show ?thesis
      by (simp add: merged_rows_def)
  next
    case False
    then have "int k \<notin> fst ` set (merged_rows u k rs)"
      by (auto simp: labels_merged_rows)
    then have "set_rows (int k) (u k) (merged_rows u k rs)
        = map (?h k) rs @ ?new k @ [(int k, u k Map.empty)]"
      by (simp add: set_rows_def merged_rows_def)
    also have "?new k @ [(int k, u k Map.empty)] = ?new (Suc k)"
      using False by simp
    also have "map (?h k) rs = map (?h (Suc k)) rs"
      using False by (intro map_cong refl) force
    finally show ?thesis
      by (simp add: merged_rows_def)
  qed
qed

lemma loop_rows:
  assumes step: "\<And>d j. rows (f d j) = set_rows (int j) (u j) (rows d)"
  shows "rows (foldl f df [0..<k]) = merged_rows u k (rows df)"
proof (induction k)
  case 0
  have "map (\<lambda>(l, r). if 0 \<le> l \<and> l < int 0 then (l, u (nat l) r) else (l, r)) (rows df) = rows df"
    by (rule map_idI) auto
  then show ?case by (simp add: merged_rows_def)
next
  case (Suc k)
  then show ?case by (simp add: step merged_rows_Suc)
qed

lemma loop_columns:
  assumes step: "\<And>d j. set (columns (f d j)) = set (columns d) \<union> C"
  shows "set (columns (foldl f df js)) = (if js = [] then set (columns df) else set (columns df) \<union> C)"
  by (induction js rule: rev_induct) (auto simp: step)

lemma rows_merge_tab:
  "rows (merge_tab x df) = merged_rows (tab_upd x) (length (rows df)) (rows df)"
  unfolding merge_tab_def by (rule loop_rows) (rule rows_tab_step)

lemma rows_merge_form:
  "rows (merge_form x df) = merged_rows (form_upd x) (length (rows df)) (rows df)"
  unfolding merge_form_def by (rule loop_rows) (rule rows_form_step)

lemma columns_merge_tab:
  "rows df \<noteq> [] \<Longrightarrow> set (columns (merge_tab x df)) = set (columns df) \<union> fst ` set tab_fields_corrected"
  unfolding merge_tab_def
  by (subst loop_columns [where C = "fst ` set tab_fields_corrected"]) (simp_all add: columns_tab_step)

lemma columns_merge_form:
  "rows df \<noteq> [] \<Longrightarrow> set (columns (merge_form x df)) = set (columns df) \<union> fst ` set form_fields_corrected"
  unfolding merge_form_def
  by (subst loop_columns [where C = "fst ` set form_fields_corrected"]) (simp_all add: columns_form_step)






lemma merged_rows_default:
  "map fst rs = map int [0..<length rs] \<Longrightarrow>
     merged_rows u (length rs) rs = map (\<lambda>(l, r). (l, u (nat l) r)) rs"
proof -
  assume a: "map fst rs = map int [0..<length rs]"
  then have "fst ` set rs = int ` {0..<length rs}"
    by (metis image_set set_map set_upt)
  then have l: "\<And>l r. (l, r) \<in> set rs \<Longrightarrow> 0 \<le> l \<and> l < int (length rs)"
    by (force simp: image_iff)
  have "filter (\<lambda>j. int j \<notin> fst ` set rs) [0..<length rs] = []"
    using \<open>fst ` set rs = int ` {0..<length rs}\<close> by (auto simp: filter_empty_conv)
  then show ?thesis
    using l by (auto simp: merged_rows_def)
qed



lemma labels_where_notnull: "map fst (rows (where_notnull df)) = map fst (rows df)"
  by (simp add: where_notnull_def case_prod_unfold)

lemma columns_where_notnull: "columns (where_notnull df) = columns df"
  by (simp add: where_notnull_def)


















section \<open>Properties of the persistence stage\<close>



lemma put_items_ok:
  assumes "list_all (\<lambda>(a, c). c \<in> set cols) item_columns"
  shows "put_items tn cols rs t =
           (map (\<lambda>(l, r). PutItem tn (item_of l r)) rs,
            t ++ map_of (rev (map (\<lambda>(l, r). (l, item_of l r)) rs)), None)"
  using assms
proof (induction rs arbitrary: t)
  case Nil
  then show ?case by simp
next
  case (Cons lr rs)
  obtain l r where lr: "lr = (l, r)" by (cases lr)
  have "t(l \<mapsto> item_of l r) ++ map_of (rev (map (\<lambda>(l, r). (l, item_of l r)) rs))
      = t ++ map_of (rev (map (\<lambda>(l, r). (l, item_of l r)) rs) @ [(l, item_of l r)])"
    by (rule ext) (simp add: map_add_def split: option.splits)
  with Cons show ?case
    by (simp add: lr make_item_def)
qed


lemma persist_ok:
  assumes "st (tablename u) = None" and "list_all (\<lambda>(a, c). c \<in> set (columns df)) item_columns"
  shows "persist u df st =
           (CreateTable (tablename u) ''line_nr'' ''N'' #
              map (\<lambda>(l, r). PutItem (tablename u) (item_of l r)) (rows df),
            st(tablename u \<mapsto> map_of (rev (map (\<lambda>(l, r). (l, item_of l r)) (rows df)))),
            None)"
  using assms by (simp add: persist_def put_items_ok)


lemma persist_exists:
  "st (tablename u) \<noteq> None \<Longrightarrow>
     persist u df st = ([CreateTable (tablename u) ''line_nr'' ''N''], st, Some ResourceInUse)"
  by (simp add: persist_def)

lemma tablename_inj: "tablename u1 = tablename u2 \<longleftrightarrow> u1 = u2"
  by (simp add: tablename_def)



section \<open>Properties of the join and of the run\<close>


lemma labels_where: "labels (where_notnull df) = labels df"
  by (simp add: labels_def labels_where_notnull)

lemma labels_merge_tab_default:
  "labels df = map int [0..<length (rows df)] \<Longrightarrow> labels (merge_tab x df) = labels df"
  by (simp add: labels_def rows_merge_tab merged_rows_default case_prod_unfold comp_def)

lemma labels_merge_form_default:
  "labels df = map int [0..<length (rows df)] \<Longrightarrow> labels (merge_form x df) = labels df"
  by (simp add: labels_def rows_merge_form merged_rows_default case_prod_unfold comp_def)

lemma join_outer_ok:
  "set (columns a) \<inter> set (columns b) = {} \<Longrightarrow> distinct (labels a) \<Longrightarrow> distinct (labels b)
     \<Longrightarrow> join_outer a b = Inr (joined_frame a b)"
  by (simp add: join_outer_def)

lemma merged_form_columns:
  "set (columns (where_notnull (merge_form x form_frame)))
     = {''FormHeader'', ''TrueHeader'', ''Comments''}"
proof -
  have nf: "rows form_frame \<noteq> []"
    by (simp add: form_frame_def)
  have "set (columns (where_notnull (merge_form x form_frame)))
      = set (columns form_frame) \<union> fst ` set form_fields_corrected"
    by (simp add: columns_where_notnull columns_merge_form [OF nf])
  then show ?thesis
    by (auto simp: form_frame_def form_fields_corrected_def)
qed

lemma merged_tab_columns:
  assumes "rows df \<noteq> []"
    and "columns df = [''Start Date'', ''End Date'', ''Employer Name'', ''Position Held'',
                       ''Reason for leaving'']"
  shows "set (columns (where_notnull (merge_tab x df))) =
      {''Start Date'', ''End Date'', ''Employer Name'', ''Position Held'', ''Reason for leaving'',
       ''TrueStartDate'', ''TrueEndDate'', ''TrueEmpName'', ''TruePosHeld'', ''TrueResLeave'',
       ''ChangeComments''}"
proof -
  have "set (columns (where_notnull (merge_tab x df)))
      = set (columns df) \<union> fst ` set tab_fields_corrected"
    by (simp add: columns_where_notnull columns_merge_tab [OF assms(1)])
  then show ?thesis
    by (auto simp: assms(2) tab_fields_corrected_def)
qed

lemma joined_item_columns:
  assumes "rows df \<noteq> []"
    and "columns df = [''Start Date'', ''End Date'', ''Employer Name'', ''Position Held'',
                       ''Reason for leaving'']"
  shows "set (columns (where_notnull (merge_form x form_frame)))
           \<inter> set (columns (where_notnull (merge_tab x df))) = {}"
    and "list_all (\<lambda>(a, c). c \<in> set (columns (where_notnull (joined_frame
            (where_notnull (merge_form x form_frame)) (where_notnull (merge_tab x df))))))
          item_columns"
proof -
  note cf = merged_form_columns [of x] and ct = merged_tab_columns [OF assms, of x]
  show "set (columns (where_notnull (merge_form x form_frame)))
           \<inter> set (columns (where_notnull (merge_tab x df))) = {}"
    by (simp add: cf ct)
  have "set (columns (where_notnull (joined_frame
            (where_notnull (merge_form x form_frame)) (where_notnull (merge_tab x df)))))
      = set (columns (where_notnull (merge_form x form_frame)))
        \<union> set (columns (where_notnull (merge_tab x df)))"
    by (simp add: columns_where_notnull joined_frame_def)
  then show "list_all (\<lambda>(a, c). c \<in> set (columns (where_notnull (joined_frame
            (where_notnull (merge_form x form_frame)) (where_notnull (merge_tab x df))))))
          item_columns"
    by (simp add: cf ct item_columns_def)
qed

lemma form_frame_labels:
  "labels (where_notnull (merge_form x form_frame)) = [0]"
proof -
  have "labels form_frame = map int [0..<length (rows form_frame)]"
    by (simp add: form_frame_def labels_def)
  then have "labels (where_notnull (merge_form x form_frame)) = labels form_frame"
    by (simp add: labels_where labels_merge_form_default)
  then show ?thesis
    by (simp add: form_frame_def labels_def)
qed








lemma tab_frame_labels: "labels (where_notnull (merge_tab x tab_frame)) = [0, 1]"
proof -
  have "labels tab_frame = map int [0..<length (rows tab_frame)]"
    by (simp add: tab_frame_def labels_def upt_rec)
  then have "labels (where_notnull (merge_tab x tab_frame)) = labels tab_frame"
    by (simp add: labels_where labels_merge_tab_default)
  then show ?thesis
    by (simp add: tab_frame_def labels_def)
qed

lemma tab_frame_columns:
  "rows tab_frame \<noteq> []"
  "columns tab_frame = [''Start Date'', ''End Date'', ''Employer Name'', ''Position Held'',
                        ''Reason for leaving'']"
  by (simp_all add: tab_frame_def)

lemma doc_frame_join:
  "join_outer (where_notnull (merge_form scenario_answer form_frame))
              (where_notnull (merge_tab scenario_answer tab_frame))
     = Inr (joined_frame (where_notnull (merge_form scenario_answer form_frame))
                         (where_notnull (merge_tab scenario_answer tab_frame)))"
  using joined_item_columns(1) [OF tab_frame_columns]
  by (rule join_outer_ok) (simp_all add: form_frame_labels tab_frame_labels)

lemma doc_frame_columns: "list_all (\<lambda>(a, c). c \<in> set (columns doc_frame)) item_columns"
  unfolding doc_frame_def by (rule joined_item_columns(2) [OF tab_frame_columns])






section \<open>Keys and tables of a run\<close>




text \<open>
  Claim C8. Two runs of the persistence stage on the same joined frame, each with its
  own identifier, create two tables with distinct names: the second run leaves the
  first table as it was and fills its own table with the same content. A run never
  writes into a table that exists: with a name that is taken, \<open>create_table\<close> fails,
  no item is put and the store is unchanged.
\<close>

theorem persist_not_idempotent:
  assumes "u1 \<noteq> u2" and "st (tablename u1) = None" and "st (tablename u2) = None"
    and "list_all (\<lambda>(a, c). c \<in> set (columns df_doc)) item_columns"
  shows "tablename u1 \<noteq> tablename u2
     \<and> (case persist u1 df_doc st of (ev1, st1, e1) \<Rightarrow>
          case persist u2 df_doc st1 of (ev2, st2, e2) \<Rightarrow>
            e1 = None \<and> e2 = None
            \<and> hd ev1 = CreateTable (tablename u1) ''line_nr'' ''N''
            \<and> hd ev2 = CreateTable (tablename u2) ''line_nr'' ''N''
            \<and> st (tablename u1) = None \<and> st1 (tablename u1) \<noteq> None
            \<and> st1 (tablename u2) = None \<and> st2 (tablename u2) \<noteq> None
            \<and> st2 (tablename u1) = st1 (tablename u1)
            \<and> st2 (tablename u2) = st2 (tablename u1)
            \<and> persist u1 df_doc st2 = ([CreateTable (tablename u1) ''line_nr'' ''N''], st2, Some ResourceInUse))"
proof -
  have ne: "tablename u1 \<noteq> tablename u2"
    using assms(1) by (simp add: tablename_inj)
  let ?t = "map_of (rev (map (\<lambda>(l, r). (l, item_of l r)) (rows df_doc)))"
  let ?st1 = "st(tablename u1 \<mapsto> ?t)"
  have p1: "persist u1 df_doc st =
      (CreateTable (tablename u1) ''line_nr'' ''N'' #
         map (\<lambda>(l, r). PutItem (tablename u1) (item_of l r)) (rows df_doc), ?st1, None)"
    using persist_ok [of st u1 df_doc] assms by simp
  have "?st1 (tablename u2) = None"
    using ne assms(3) by simp
  then have p2: "persist u2 df_doc ?st1 =
      (CreateTable (tablename u2) ''line_nr'' ''N'' #
         map (\<lambda>(l, r). PutItem (tablename u2) (item_of l r)) (rows df_doc),
       ?st1(tablename u2 \<mapsto> ?t), None)"
    using persist_ok [of ?st1 u2 df_doc] assms(4) by simp
  have p3: "persist u1 df_doc (?st1(tablename u2 \<mapsto> ?t)) =
      ([CreateTable (tablename u1) ''line_nr'' ''N''], ?st1(tablename u2 \<mapsto> ?t), Some ResourceInUse)"
    using ne by (intro persist_exists) simp
  show ?thesis
    using ne assms(2,3) by (simp add: p1 p2 p3)
qed

theorem persist_not_idempotent_witness:
  "''run-1'' \<noteq> ''run-2''
   \<and> (Map.empty :: datastore) (tablename ''run-1'') = None
   \<and> (Map.empty :: datastore) (tablename ''run-2'') = None
   \<and> list_all (\<lambda>(a, c). c \<in> set (columns doc_frame)) item_columns
   \<and> tablename ''run-1'' = ''emp_hist-run-1'' \<and> tablename ''run-2'' = ''emp_hist-run-2''
   \<and> snd (snd (persist ''run-1'' doc_frame Map.empty)) = None
   \<and> fst (snd (persist ''run-1'' doc_frame Map.empty)) ''emp_hist-run-1'' \<noteq> None
   \<and> snd (snd (persist ''run-2'' doc_frame (fst (snd (persist ''run-1'' doc_frame Map.empty))))) = None
   \<and> fst (snd (persist ''run-2'' doc_frame (fst (snd (persist ''run-1'' doc_frame Map.empty)))))
        ''emp_hist-run-2'' \<noteq> None"
  using persist_not_idempotent [of "''run-1''" "''run-2''" Map.empty doc_frame]
    doc_frame_columns
  by (auto simp: tablename_def split: prod.splits)

section \<open>Properties of the review run\<close>

lemma flow_wait_eq:
  "flow_wait status xs =
     concat (replicate (length (takeWhile (\<lambda>x. status x \<noteq> ''Active'') xs))
       [DescribeFlowDefinition, Sleep 2])
     @ (if length (takeWhile (\<lambda>x. status x \<noteq> ''Active'') xs) < length xs
        then [DescribeFlowDefinition] else [])"
  by (induction xs) auto

lemma takeWhile_always: "takeWhile (\<lambda>x. True) xs = xs"
  by (induction xs) auto

lemma payload_frames:
  "build_payload form_frame tab_frame =
     Inr ([(''0'', [PStr ''Jan 2018'', PStr ''Dec 2018'', PStr ''Acme'', PStr ''Clerk'', PStr ''Moved'']),
           (''1'', [PStr ''Jan 2019'', PStr ''Manager'', PNaN, PNaN, PNaN])],
          [(''0'', PStr ''Name John'')])"
  by (simp add: build_payload_def form_frame_def tab_frame_def review_columns_def cell_def
      str_nat.simps)

lemma review_run_not_completed:
  assumes "loop_status env 1 \<noteq> ''Completed''"
    and "build_payload df_form df_tab = Inr (items, hdrs)"
  shows "review_run env df_form df_tab st =
           (flow_wait (flow_status env) [0..<60]
              @ [StartHumanLoop hdrs items, DescribeHumanLoop, DescribeHumanLoop],
            st, Some NameError)"
  using assms by (simp add: review_run_def)

text \<open>
  Claim C5, as amended. The notebook has no completion poller. A run asks for the
  status of the human loop in two cells, once each, with no retry budget and no sleep
  in between. When the second answer is not \<open>Completed\<close>, nothing is fetched, and the
  run ends at the merge cell with a \<open>NameError\<close>: the calls made are those of the
  flow-activation wait, the submission and the two status queries, and the store is
  unchanged.
\<close>

theorem completion_checked_once:
  assumes "loop_status env 1 \<noteq> ''Completed''"
    and "build_payload df_form df_tab = Inr (items, hdrs)"
  shows "review_run env df_form df_tab st =
           (flow_wait (flow_status env) [0..<60]
              @ [StartHumanLoop hdrs items, DescribeHumanLoop, DescribeHumanLoop],
            st, Some NameError)"
  using assms by (simp add: review_run_def)

theorem completion_checked_once_witness:
  "loop_status never_completed 1 \<noteq> ''Completed''
   \<and> build_payload form_frame tab_frame =
       Inr ([(''0'', [PStr ''Jan 2018'', PStr ''Dec 2018'', PStr ''Acme'', PStr ''Clerk'', PStr ''Moved'']),
             (''1'', [PStr ''Jan 2019'', PStr ''Manager'', PNaN, PNaN, PNaN])],
            [(''0'', PStr ''Name John'')])
   \<and> review_run never_completed form_frame tab_frame Map.empty =
       (flow_wait (\<lambda>x. ''Active'') [0..<60]
          @ [StartHumanLoop [(''0'', PStr ''Name John'')]
               [(''0'', [PStr ''Jan 2018'', PStr ''Dec 2018'', PStr ''Acme'', PStr ''Clerk'', PStr ''Moved'']),
                (''1'', [PStr ''Jan 2019'', PStr ''Manager'', PNaN, PNaN, PNaN])],
             DescribeHumanLoop, DescribeHumanLoop],
        Map.empty, Some NameError)"
  using completion_checked_once [of never_completed form_frame tab_frame _ _ Map.empty,
      OF _ payload_frames]
  by (simp add: never_completed_def payload_frames)

text \<open>
  Claim C5 as stated fails for every poll budget: with a human loop that never reports
  \<open>Completed\<close> the run makes exactly two status queries and no sleep after the
  submission, and ends with a \<open>NameError\<close>, not a \<open>TimeoutError\<close>.
\<close>

theorem completion_poll_counterexample:
  "fst (review_run never_completed form_frame tab_frame Map.empty) =
     [DescribeFlowDefinition,
      StartHumanLoop [(''0'', PStr ''Name John'')]
        [(''0'', [PStr ''Jan 2018'', PStr ''Dec 2018'', PStr ''Acme'', PStr ''Clerk'', PStr ''Moved'']),
         (''1'', [PStr ''Jan 2019'', PStr ''Manager'', PNaN, PNaN, PNaN])],
      DescribeHumanLoop, DescribeHumanLoop]
   \<and> snd (snd (review_run never_completed form_frame tab_frame Map.empty)) = Some NameError
   \<and> snd (snd (review_run never_completed form_frame tab_frame Map.empty)) \<noteq> Some TimeoutError
   \<and> count_list (fst (review_run never_completed form_frame tab_frame Map.empty))
        DescribeHumanLoop = 2"
proof -
  have "loop_status never_completed 1 \<noteq> ''Completed''"
    by (simp add: never_completed_def)
  from review_run_not_completed [OF this payload_frames, of Map.empty]
  show ?thesis
    by (simp add: never_completed_def upt_conv_Cons)
qed

text \<open>
  Claim C9. The flow-activation wait makes at most 60 status queries. With \<open>n\<close> the
  number of attempts before the first one that reports \<open>Active\<close> (60 when none of the
  60 does), the calls are \<open>n\<close> times a query followed by a sleep of 2 seconds, then,
  when \<open>n < 60\<close>, the query that saw \<open>Active\<close>. The wait raises nothing, and when the
  payload cells succeed the next call of the run is the submission of the task, whether
  or not \<open>Active\<close> was seen.
\<close>

theorem flow_activation_wait_bounded:
  "(let n = length (takeWhile (\<lambda>x. flow_status env x \<noteq> ''Active'') [0..<60]);
        ev = flow_wait (flow_status env) [0..<60]
    in n \<le> 60
       \<and> (\<forall>i<n. flow_status env i \<noteq> ''Active'')
       \<and> (n < 60 \<longrightarrow> flow_status env n = ''Active'')
       \<and> ev = concat (replicate n [DescribeFlowDefinition, Sleep 2])
               @ (if n < 60 then [DescribeFlowDefinition] else [])
       \<and> count_list ev DescribeFlowDefinition = (if n < 60 then n + 1 else 60)
       \<and> (\<forall>items hdrs. build_payload df_form df_tab = Inr (items, hdrs) \<longrightarrow>
            take (length ev + 1) (fst (review_run env df_form df_tab st))
              = ev @ [StartHumanLoop hdrs items]))"
proof -
  define P where "P = (\<lambda>x. flow_status env x \<noteq> ''Active'')"
  define n where "n = length (takeWhile P [0..<60])"
  define ev where "ev = flow_wait (flow_status env) [0..<60]"
  have n60: "n \<le> 60"
    using length_takeWhile_le [of P "[0..<60]"] by (simp add: n_def)
  have before: "\<forall>i<n. flow_status env i \<noteq> ''Active''"
  proof (intro allI impI)
    fix i assume "i < n"
    then have "takeWhile P [0..<60] ! i \<in> set (takeWhile P [0..<60])"
      by (simp add: n_def)
    then have "P (takeWhile P [0..<60] ! i)"
      by (rule set_takeWhileD [THEN conjunct2])
    moreover have "takeWhile P [0..<60] ! i = [0..<60] ! i"
      using \<open>i < n\<close> by (simp add: takeWhile_nth n_def)
    ultimately have "P ([0..<60] ! i)" by simp
    with \<open>i < n\<close> n60 show "flow_status env i \<noteq> ''Active''" by (simp add: P_def)
  qed
  have at: "n < 60 \<longrightarrow> flow_status env n = ''Active''"
  proof
    assume "n < 60"
    then have "\<not> P ([0..<60] ! n)"
      unfolding n_def by (intro nth_length_takeWhile) simp
    with \<open>n < 60\<close> show "flow_status env n = ''Active''" by (simp add: P_def)
  qed
  have ev: "ev = concat (replicate n [DescribeFlowDefinition, Sleep 2])
               @ (if n < 60 then [DescribeFlowDefinition] else [])"
    unfolding ev_def n_def P_def by (subst flow_wait_eq) simp
  have cnt: "count_list (concat (replicate k [DescribeFlowDefinition, Sleep 2])) DescribeFlowDefinition = k" for k
    by (induction k) simp_all
  have count: "count_list ev DescribeFlowDefinition = (if n < 60 then n + 1 else 60)"
    using n60 by (auto simp: ev cnt)
  have run: "\<forall>items hdrs. build_payload df_form df_tab = Inr (items, hdrs) \<longrightarrow>
            take (length ev + 1) (fst (review_run env df_form df_tab st))
              = ev @ [StartHumanLoop hdrs items]"
    by (auto simp: review_run_def Let_def ev_def split: sum.splits prod.splits)
  show ?thesis
    using n60 before at ev count run
    unfolding Let_def n_def [symmetric] ev_def [symmetric] P_def [symmetric]
    by blast
qed

theorem flow_activation_wait_bounded_witness:
  "length (takeWhile (\<lambda>x. flow_status never_active x \<noteq> ''Active'') [0..<60]) = 60
   \<and> flow_wait (flow_status never_active) [0..<60]
       = concat (replicate 60 [DescribeFlowDefinition, Sleep 2])
   \<and> count_list (flow_wait (flow_status never_active) [0..<60]) DescribeFlowDefinition = 60
   \<and> build_payload form_frame tab_frame =
       Inr ([(''0'', [PStr ''Jan 2018'', PStr ''Dec 2018'', PStr ''Acme'', PStr ''Clerk'', PStr ''Moved'']),
             (''1'', [PStr ''Jan 2019'', PStr ''Manager'', PNaN, PNaN, PNaN])],
            [(''0'', PStr ''Name John'')])
   \<and> take 121 (fst (review_run never_active form_frame tab_frame Map.empty))
       = concat (replicate 60 [DescribeFlowDefinition, Sleep 2])
         @ [StartHumanLoop [(''0'', PStr ''Name John'')]
              [(''0'', [PStr ''Jan 2018'', PStr ''Dec 2018'', PStr ''Acme'', PStr ''Clerk'', PStr ''Moved'']),
               (''1'', [PStr ''Jan 2019'', PStr ''Manager'', PNaN, PNaN, PNaN])]]"
proof -
  have n: "length (takeWhile (\<lambda>x. flow_status never_active x \<noteq> ''Active'') [0..<60]) = 60"
    by (simp add: never_active_def takeWhile_always)
  have len: "length (concat (replicate k [DescribeFlowDefinition, Sleep 2])) = 2 * k" for k
    by (induction k) simp_all
  note inst = flow_activation_wait_bounded [of never_active form_frame tab_frame Map.empty,
      unfolded Let_def n]
  have "flow_wait (flow_status never_active) [0..<60]
          = concat (replicate 60 [DescribeFlowDefinition, Sleep 2])
            @ (if (60::nat) < 60 then [DescribeFlowDefinition] else [])"
    using inst by blast
  then have ev: "flow_wait (flow_status never_active) [0..<60]
              = concat (replicate 60 [DescribeFlowDefinition, Sleep 2])"
    by simp
  have "count_list (flow_wait (flow_status never_active) [0..<60]) DescribeFlowDefinition
          = (if (60::nat) < 60 then 60 + 1 else 60)"
    using inst by blast
  then have cnt: "count_list (flow_wait (flow_status never_active) [0..<60]) DescribeFlowDefinition = 60"
    by simp
  have run: "take (length (flow_wait (flow_status never_active) [0..<60]) + 1)
                (fst (review_run never_active form_frame tab_frame Map.empty))
              = flow_wait (flow_status never_active) [0..<60]
                @ [StartHumanLoop [(''0'', PStr ''Name John'')]
                     [(''0'', [PStr ''Jan 2018'', PStr ''Dec 2018'', PStr ''Acme'', PStr ''Clerk'', PStr ''Moved'']),
                      (''1'', [PStr ''Jan 2019'', PStr ''Manager'', PNaN, PNaN, PNaN])]]"
    using inst payload_frames by blast
  have "length (flow_wait (flow_status never_active) [0..<60]) + 1 = 121"
    by (simp add: ev len)
  with run have "take 121 (fst (review_run never_active form_frame tab_frame Map.empty))
              = flow_wait (flow_status never_active) [0..<60]
                @ [StartHumanLoop [(''0'', PStr ''Name John'')]
                     [(''0'', [PStr ''Jan 2018'', PStr ''Dec 2018'', PStr ''Acme'', PStr ''Clerk'', PStr ''Moved'']),
                      (''1'', [PStr ''Jan 2019'', PStr ''Manager'', PNaN, PNaN, PNaN])]]"
    by (simp only:)
  then show ?thesis
    using n cnt payload_frames by (simp add: ev)
qed





end
